theory Spec2Isabelle
  imports Complex_Main "HOL-Library.Sublist"
begin

section \<open>Strings of the host language\<close>

text \<open>
  A string of the program is a \<open>string\<close>: one \<open>char\<close> per code unit, for the code
  units below 256. \<open>length\<close> is the program's \<open>.length\<close>.
\<close>

definition dquote :: char where
  "dquote = CHR 0x22"

definition backslash :: char where
  "backslash = CHR 0x5C"

definition newline :: char where
  "newline = CHR 0x0A"

definition is_ws :: "char \<Rightarrow> bool" where
  \<comment> \<open>The class \<open>\s\<close> of a regular expression, which is also what \<open>trim\<close> strips: tab, line
      feed, vertical tab, form feed, carriage return, space and the no-break space.\<close>
  "is_ws c \<longleftrightarrow> c \<in> set [CHR 0x09, CHR 0x0A, CHR 0x0B, CHR 0x0C, CHR 0x0D, CHR 0x20, CHR 0xA0]"

definition trim :: "string \<Rightarrow> string" where
  "trim s = rev (dropWhile is_ws (rev (dropWhile is_ws s)))"

fun split_on :: "char \<Rightarrow> string \<Rightarrow> string list" where
  \<comment> \<open>\<open>s.split(c)\<close> for a one-character separator: the empty string gives one empty piece.\<close>
  "split_on sep [] = [[]]"
| "split_on sep (c # cs) =
     (if c = sep then [] # split_on sep cs
      else (case split_on sep cs of [] \<Rightarrow> [[c]] | x # xs \<Rightarrow> (c # x) # xs))"

fun find_split :: "string \<Rightarrow> string \<Rightarrow> (string \<times> string) option" where
  \<comment> \<open>The first occurrence of \<open>pat\<close> in a string: what stands before it and what after.\<close>
  "find_split pat [] = (if pat = [] then Some ([], []) else None)"
| "find_split pat (c # cs) =
     (if prefix pat (c # cs) then Some ([], drop (length pat) (c # cs))
      else map_option (\<lambda>(pre, post). (c # pre, post)) (find_split pat cs))"

definition str_includes :: "string \<Rightarrow> string \<Rightarrow> bool" where
  \<comment> \<open>\<open>s.includes(t)\<close>\<close>
  "str_includes s t \<longleftrightarrow> find_split t s \<noteq> None"

definition is_digit :: "char \<Rightarrow> bool" where
  "is_digit c \<longleftrightarrow> 48 \<le> (of_char c :: nat) \<and> (of_char c :: nat) \<le> 57"

definition digit_val :: "char \<Rightarrow> nat" where
  "digit_val c = of_char c - 48"

definition digits_value :: "string \<Rightarrow> nat" where
  "digits_value ds = foldl (\<lambda>n c. 10 * n + digit_val c) 0 ds"

section \<open>Values of the host language\<close>

datatype jsnum = NaN | Fin rat | PosInf | NegInf

datatype jsval =
    JUndef
  | JNull
  | JBool bool
  | JNum jsnum
  | JStr string
  | JArr "jsval list"
  | JObj "(string \<times> jsval) list"
  | JNative string

text \<open>
  \<open>JObj\<close> lists the own properties of a parsed object, each key once. \<open>JNative\<close> is a
  member that a value inherits from the built-in prototypes (a function such as
  \<open>toString\<close>). Which members exist, and which of them are accessors that throw when
  read, is the runtime's table, a parameter of the model.
\<close>

datatype js_exception = TypeError

type_synonym runtime = "jsval \<Rightarrow> string \<Rightarrow> js_exception + jsval"

definition object_prototype_members :: "string list" where
  "object_prototype_members =
     [''constructor'', ''hasOwnProperty'', ''isPrototypeOf'', ''propertyIsEnumerable'',
      ''toLocaleString'', ''toString'', ''valueOf'', ''__proto__'',
      ''__defineGetter__'', ''__defineSetter__'', ''__lookupGetter__'', ''__lookupSetter__'']"

definition array_prototype_members :: "string list" where
  "array_prototype_members =
     [''at'', ''concat'', ''copyWithin'', ''entries'', ''every'', ''fill'', ''filter'', ''find'',
      ''findIndex'', ''findLast'', ''findLastIndex'', ''flat'', ''flatMap'', ''forEach'',
      ''includes'', ''indexOf'', ''join'', ''keys'', ''lastIndexOf'', ''map'', ''pop'', ''push'',
      ''reduce'', ''reduceRight'', ''reverse'', ''shift'', ''slice'', ''some'', ''sort'',
      ''splice'', ''toReversed'', ''toSorted'', ''toSpliced'', ''unshift'', ''values'', ''with'']"

definition string_prototype_members :: "string list" where
  "string_prototype_members =
     [''anchor'', ''at'', ''big'', ''blink'', ''bold'', ''charAt'', ''charCodeAt'',
      ''codePointAt'', ''concat'', ''endsWith'', ''fixed'', ''fontcolor'', ''fontsize'',
      ''includes'', ''indexOf'', ''isWellFormed'', ''italics'', ''lastIndexOf'', ''link'',
      ''localeCompare'', ''match'', ''matchAll'', ''normalize'', ''padEnd'', ''padStart'',
      ''repeat'', ''replace'', ''replaceAll'', ''search'', ''slice'', ''small'', ''split'',
      ''startsWith'', ''strike'', ''sub'', ''substr'', ''substring'', ''sup'',
      ''toLocaleLowerCase'', ''toLocaleUpperCase'', ''toLowerCase'', ''toUpperCase'',
      ''toWellFormed'', ''trim'', ''trimEnd'', ''trimLeft'', ''trimRight'', ''trimStart'']"

definition number_prototype_members :: "string list" where
  "number_prototype_members = [''toExponential'', ''toFixed'', ''toPrecision'']"

definition function_prototype_members :: "string list" where
  "function_prototype_members = [''apply'', ''bind'', ''call'']"

definition throwing_accessors :: "string list" where
  \<comment> \<open>The accessors of \<open>Function.prototype\<close> whose getter throws a \<open>TypeError\<close>.\<close>
  "throwing_accessors = [''caller'', ''arguments'']"

fun inherited_members :: "jsval \<Rightarrow> string list" where
  "inherited_members (JArr xs) = array_prototype_members @ object_prototype_members"
| "inherited_members (JStr s) = string_prototype_members @ object_prototype_members"
| "inherited_members (JNum n) = number_prototype_members @ object_prototype_members"
| "inherited_members (JNative f) = function_prototype_members @ object_prototype_members"
| "inherited_members v = object_prototype_members"

fun is_native :: "jsval \<Rightarrow> bool" where
  "is_native (JNative f) = True"
| "is_native v = False"

definition std_runtime :: runtime where
  \<comment> \<open>The standard members by kind of value, for the worked examples: what an object, an
      array, a string, a number, a boolean and a built-in function inherit, and the two
      accessors that throw when they are read from a function. The own properties of a
      built-in function (\<open>name\<close>, \<open>length\<close>, \<open>prototype\<close>, the static members of a
      constructor) are not in the table. The general statements hold for every table.\<close>
  "std_runtime v k =
     (if is_native v \<and> k \<in> set throwing_accessors then Inl TypeError
      else if k \<in> set (inherited_members v) then Inr (JNative k)
      else Inr JUndef)"

fun truthy :: "jsval \<Rightarrow> bool" where
  "truthy JUndef = False"
| "truthy JNull = False"
| "truthy (JBool b) = b"
| "truthy (JNum n) = (n \<noteq> NaN \<and> n \<noteq> Fin 0)"
| "truthy (JStr s) = (s \<noteq> [])"
| "truthy (JArr xs) = True"
| "truthy (JObj kvs) = True"
| "truthy (JNative f) = True"

fun typeof :: "jsval \<Rightarrow> string" where
  "typeof JUndef = ''undefined''"
| "typeof JNull = ''object''"
| "typeof (JBool b) = ''boolean''"
| "typeof (JNum n) = ''number''"
| "typeof (JStr s) = ''string''"
| "typeof (JArr xs) = ''object''"
| "typeof (JObj kvs) = ''object''"
| "typeof (JNative f) = ''function''"

definition canonical_index :: "string \<Rightarrow> nat option" where
  \<comment> \<open>A property key that is an index: decimal digits with no leading zero.\<close>
  "canonical_index k =
     (if k \<noteq> [] \<and> list_all is_digit k \<and> (k = ''0'' \<or> hd k \<noteq> CHR ''0'')
      then Some (digits_value k) else None)"

fun own_property :: "jsval \<Rightarrow> string \<Rightarrow> jsval option" where
  "own_property (JObj kvs) k = map_of kvs k"
| "own_property (JArr xs) k =
     (if k = ''length'' then Some (JNum (Fin (of_nat (length xs))))
      else (case canonical_index k of
              Some i \<Rightarrow> if i < length xs then Some (xs ! i) else None
            | None \<Rightarrow> None))"
| "own_property (JStr s) k =
     (if k = ''length'' then Some (JNum (Fin (of_nat (length s))))
      else (case canonical_index k of
              Some i \<Rightarrow> if i < length s then Some (JStr [s ! i]) else None
            | None \<Rightarrow> None))"
| "own_property v k = None"

definition get_property :: "runtime \<Rightarrow> jsval \<Rightarrow> string \<Rightarrow> js_exception + jsval" where
  \<comment> \<open>\<open>v[k]\<close>: reading a property of \<open>null\<close> or \<open>undefined\<close> throws; an own
      property is read as it is; every other read is the runtime's, which gives the
      inherited member, \<open>undefined\<close> when there is none, or the exception of an accessor
      that throws.\<close>
  "get_property rt v k =
     (if v = JNull \<or> v = JUndef then Inl TypeError
      else (case own_property v k of Some x \<Rightarrow> Inr x | None \<Rightarrow> rt v k))"

section \<open>The key-path extractor (\<open>get\<close> in useModel.ts)\<close>

definition match_bracket :: "string \<Rightarrow> (string \<times> string) option" where
  \<comment> \<open>The regular expression \<open>\[([^}]+)\]\<close> matched at the start of a string: the capture
      and the rest after the match. \<open>[^}]+\<close> is greedy, so the match ends at the last
      \<open>]\<close> before the first \<open>}\<close>.\<close>
  "match_bracket s =
     (case s of
        [] \<Rightarrow> None
      | c # cs \<Rightarrow>
          if c \<noteq> CHR ''['' then None
          else (let run = takeWhile (\<lambda>x. x \<noteq> CHR ''}'') cs;
                    ks = filter (\<lambda>k. run ! k = CHR '']'') [1..<length run]
                in if ks = [] then None
                   else Some (take (last ks) run, drop (last ks + 1) cs)))"

lemma match_bracket_shorter:
  "match_bracket s = Some (cap, rest) \<Longrightarrow> length rest < length s"
  by (auto simp: match_bracket_def Let_def split: list.splits if_splits)

function split_brackets :: "string \<Rightarrow> string \<Rightarrow> string list" where
  \<comment> \<open>\<open>item.split(/\[([^}]+)\]/g)\<close>: the pieces between the matches, with each match's
      capture between them. \<open>acc\<close> is the piece being read, reversed.\<close>
  "split_brackets acc [] = [rev acc]"
| "split_brackets acc (c # cs) =
     (case match_bracket (c # cs) of
        Some (cap, rest) \<Rightarrow> rev acc # cap # split_brackets [] rest
      | None \<Rightarrow> split_brackets (c # acc) cs)"
  by pat_completeness auto
termination
  by (relation "measure (\<lambda>(acc, s). length s)") (auto dest: match_bracket_shorter)

definition tokenize :: "string \<Rightarrow> string list" where
  "tokenize pathString =
     concat (map (\<lambda>item. filter (\<lambda>key. length key > 0) (split_brackets [] item))
                 (split_on (CHR ''.'') (trim pathString)))"

fun walk :: "runtime \<Rightarrow> jsval \<Rightarrow> string list \<Rightarrow> jsval \<Rightarrow> js_exception + jsval" where
  \<comment> \<open>The \<open>for\<close> loop of \<open>get\<close> over the remaining tokens.\<close>
  "walk rt current [] def = Inr current"
| "walk rt current (k # ks) def =
     (case get_property rt current k of
        Inl e \<Rightarrow> Inl e
      | Inr x \<Rightarrow> if \<not> truthy x then Inr def else walk rt x ks def)"

definition get :: "runtime \<Rightarrow> jsval \<Rightarrow> string \<Rightarrow> jsval \<Rightarrow> js_exception + jsval" where
  "get rt obj pathString def =
     (let path = tokenize pathString
      in if typeof obj = ''object'' then walk rt obj path def else Inr obj)"

subsection \<open>What the traversal reaches\<close>

fun descend :: "runtime \<Rightarrow> jsval \<Rightarrow> string list \<Rightarrow> jsval option" where
  \<comment> \<open>The value that reading the tokens one after the other leads to, with no test on
      the way: the reference against which \<open>walk\<close> is stated.\<close>
  "descend rt v [] = Some v"
| "descend rt v (k # ks) =
     (case get_property rt v k of Inl e \<Rightarrow> None | Inr x \<Rightarrow> descend rt x ks)"



section \<open>The endpoint invoker (\<open>useModel\<close> in useModel.ts)\<close>

subsection \<open>String operations of the request body\<close>

function collapse_ws :: "string \<Rightarrow> string" where
  \<comment> \<open>\<open>x.replaceAll(/[\n\r\s]+/g, " ")\<close>: every maximal run of white space becomes one
      space.\<close>
  "collapse_ws [] = []"
| "collapse_ws (c # cs) =
     (if is_ws c then CHR '' '' # collapse_ws (dropWhile is_ws cs) else c # collapse_ws cs)"
  by pat_completeness auto
termination
  by (relation "measure length") (auto simp: le_imp_less_Suc length_dropWhile_le)

definition escape_quotes :: "string \<Rightarrow> string" where
  \<comment> \<open>\<open>x.replaceAll('"', '\\"')\<close>: a backslash before every double quote.\<close>
  "escape_quotes s = concat (map (\<lambda>c. if c = dquote then [backslash, dquote] else [c]) s)"

definition clean :: "string \<Rightarrow> string" where
  \<comment> \<open>The two \<open>replaceAll\<close> calls that every value goes through before it is put into
      the request body.\<close>
  "clean x = escape_quotes (collapse_ws x)"

fun get_substitution :: "string \<Rightarrow> string \<Rightarrow> string \<Rightarrow> string \<Rightarrow> string" where
  \<comment> \<open>How \<open>replace\<close> expands its replacement string when the pattern is a string:
      \<open>$$\<close> is a dollar sign, \<open>$&\<close> the matched text, \<open>$`\<close> the text before the
      match and \<open>$'\<close> the text after it; there are no captures, so every other dollar
      sign stands for itself.\<close>
  "get_substitution matched pre post [] = []"
| "get_substitution matched pre post [c] = [c]"
| "get_substitution matched pre post (c # d # r) =
     (if c = CHR ''$'' then
        (if d = CHR ''$'' then CHR ''$'' # get_substitution matched pre post r
         else if d = CHR ''&'' then matched @ get_substitution matched pre post r
         else if d = CHR 0x60 then pre @ get_substitution matched pre post r
         else if d = CHR 0x27 then post @ get_substitution matched pre post r
         else c # get_substitution matched pre post (d # r))
      else c # get_substitution matched pre post (d # r))"

definition replace :: "string \<Rightarrow> string \<Rightarrow> string \<Rightarrow> string" where
  \<comment> \<open>\<open>s.replace(pat, repl)\<close> with a string pattern: the first occurrence only.\<close>
  "replace s pat repl =
     (case find_split pat s of
        None \<Rightarrow> s
      | Some (pre, post) \<Rightarrow> pre @ get_substitution pat pre post repl @ post)"

definition to_lower_char :: "char \<Rightarrow> char" where
  \<comment> \<open>Lower case of a code unit below 256: the letters A to Z and the accented capitals
      0xC0 to 0xDE (0xD7, the multiplication sign, is no letter).\<close>
  "to_lower_char c =
     (let n = (of_char c :: nat)
      in if (65 \<le> n \<and> n \<le> 90) \<or> (192 \<le> n \<and> n \<le> 222 \<and> n \<noteq> 215)
         then char_of (n + 32) else c)"

definition toLowerCase :: "string \<Rightarrow> string" where
  "toLowerCase s = map to_lower_char s"

subsection \<open>Preferences, requests and the hook\<close>

record preferences =
  modelEndpoint :: string
  inputSchema :: string
  promptPrefix :: string
  promptSuffix :: string
  outputKeyPath :: string
  outputTiming :: string
  authType :: string
  apiKey :: string

datatype hook_error =
    PromptCannotBeEmpty       \<comment> \<open>"Prompt cannot be empty"\<close>
  | RaycastAIUnavailable      \<comment> \<open>"Raycast AI is not available ..."\<close>
  | InvalidEndpoint           \<comment> \<open>"Invalid Endpoint"\<close>
  | CouldNotParse             \<comment> \<open>"Couldn't parse model output"\<close>
  | StatusText string         \<comment> \<open>the status text of a response that is not ok\<close>

record model_view =
  data :: string
  isLoading :: bool
  error :: "hook_error option"
  dataTag :: "string option"

datatype request =
    AskAI string                                        \<comment> \<open>the built-in assistant, with its prompt\<close>
  | HttpPost string "(string \<times> string) list" string   \<comment> \<open>endpoint, headers, body\<close>

datatype invocation =
    Returned model_view          \<comment> \<open>an object literal returned at once\<close>
  | NativeAI string bool string  \<comment> \<open>\<open>useAI(prompt, {execute})\<close> with the \<open>dataTag\<close> added\<close>
  | Http "request list"          \<comment> \<open>the fetch branch, with the requests its effect sends\<close>

definition validRaycastAIReps :: "string list" where
  "validRaycastAIReps = [''raycast ai'', ''raycastai'', ''raycast'', ''raycast-ai'']"

definition headers :: "preferences \<Rightarrow> (string \<times> string) list" where
  "headers prefs =
     [(''method'', ''POST''), (''Content-Type'', ''application/json'')] @
     (if authType prefs = ''apiKey'' then [(''Authorization'', ''Api-Key '' @ apiKey prefs)]
      else if authType prefs = ''bearerToken'' then [(''Authorization'', ''Bearer '' @ apiKey prefs)]
      else if authType prefs = ''x-api-key'' then [(''X-API-Key'', apiKey prefs)]
      else [])"

definition sync_body :: "preferences \<Rightarrow> string \<Rightarrow> string \<Rightarrow> string \<Rightarrow> string" where
  \<comment> \<open>The \<open>body\<close> of the request when \<open>outputTiming\<close> is \<open>sync\<close>.\<close>
  "sync_body prefs basePrompt prompt input =
     replace
       (replace
          (replace (inputSchema prefs) ''{prompt}''
             (promptPrefix prefs @ clean prompt @ promptSuffix prefs))
          ''{basePrompt}'' (promptPrefix prefs @ clean basePrompt))
       ''{input}''
       (if str_includes (inputSchema prefs) ''{prompt'' \<and> prompt = input then []
        else clean input @ promptSuffix prefs)"

definition async_body :: "preferences \<Rightarrow> string \<Rightarrow> string \<Rightarrow> string \<Rightarrow> string" where
  \<comment> \<open>The \<open>body\<close> of the request when \<open>outputTiming\<close> is \<open>async\<close>.\<close>
  "async_body prefs basePrompt prompt input =
     replace
       (replace
          (replace (inputSchema prefs) ''{prompt}''
             (promptPrefix prefs @ clean prompt @ promptSuffix prefs))
          ''{basePrompt}'' (promptPrefix prefs @ clean basePrompt))
       ''{input}'' (clean input @ promptSuffix prefs)"

definition useModel ::
  "bool \<Rightarrow> preferences \<Rightarrow> string \<Rightarrow> string \<Rightarrow> string \<Rightarrow> bool \<Rightarrow> invocation" where
  \<comment> \<open>\<open>canAccessAI\<close> is \<open>environment.canAccess(AI)\<close>.\<close>
  "useModel canAccessAI prefs basePrompt prompt input execute =
     (if length basePrompt = 0 \<and> length prompt = 0 then
        Returned \<lparr>data = [], isLoading = False, error = Some PromptCannotBeEmpty, dataTag = None\<rparr>
      else if toLowerCase (modelEndpoint prefs) \<in> set validRaycastAIReps then
        (if \<not> canAccessAI then
           Returned \<lparr>data = [], isLoading = False, error = Some RaycastAIUnavailable,
                     dataTag = None\<rparr>
         else NativeAI (promptPrefix prefs @ prompt @ promptSuffix prefs) execute basePrompt)
      else if str_includes (modelEndpoint prefs) '':'' then
        Http (if execute then
                (if outputTiming prefs = ''sync'' then
                   [HttpPost (modelEndpoint prefs) (headers prefs)
                      (sync_body prefs basePrompt prompt input)]
                 else if outputTiming prefs = ''async'' then
                   [HttpPost (modelEndpoint prefs) (headers prefs)
                      (async_body prefs basePrompt prompt input)]
                 else [])
              else [])
      else
        Returned \<lparr>data = [], isLoading = False, error = Some InvalidEndpoint, dataTag = Some []\<rparr>)"

fun requests_of :: "invocation \<Rightarrow> request list" where
  \<comment> \<open>The requests that a call of the hook starts.\<close>
  "requests_of (Returned v) = []"
| "requests_of (NativeAI p execute tag) = (if execute then [AskAI p] else [])"
| "requests_of (Http reqs) = reqs"

fun revalidate :: "invocation \<Rightarrow> request list" where
  \<comment> \<open>What calling the \<open>revalidate\<close> of the hook's result starts: the assistant's own
      \<open>revalidate\<close> asks again with the same prompt, every other branch returns
      \<open>() => null\<close>.\<close>
  "revalidate (Returned v) = []"
| "revalidate (NativeAI p execute tag) = [AskAI p]"
| "revalidate (Http reqs) = []"

subsection \<open>Streaming accumulation\<close>

definition accumulate :: "string \<Rightarrow> string \<Rightarrow> string" where
  \<comment> \<open>One parsed \<open>data:\<close> line: \<open>text\<close> is the text so far and \<open>output\<close> the text of
      the extracted value (\<open>get(...) || ""\<close>, read through \<open>toString\<close>).\<close>
  "accumulate text output = (if str_includes output text then output else text @ output)"

definition accumulate_all :: "string list \<Rightarrow> string" where
  \<comment> \<open>The text after a sequence of extracted values, from \<open>let text = ""\<close>.\<close>
  "accumulate_all outputs = foldl accumulate [] outputs"

subsection \<open>The state of the fetch branch\<close>

text \<open>
  In the fetch branch the hook returns its own state: \<open>data\<close>, \<open>isLoading\<close>,
  \<open>error\<close> and \<open>dataTag\<close>. The effect sends the request; the handlers of the response
  set the state later, and they hold the values of the render in which the request was
  sent.
\<close>

definition fetch_initial :: model_view where
  \<comment> \<open>The initial values of the four \<open>useState\<close> calls.\<close>
  "fetch_initial = \<lparr>data = [], isLoading = True, error = None, dataTag = Some []\<rparr>"

definition fetch_effect :: "bool \<Rightarrow> model_view \<Rightarrow> model_view" where
  \<comment> \<open>What the effect does to the state when \<open>execute\<close>, \<open>basePrompt\<close>, \<open>input\<close> or
      \<open>prompt\<close> has changed: \<open>if (execute) { setIsLoading(true); ... }\<close>. The request it
      sends is in \<open>useModel\<close>.\<close>
  "fetch_effect execute h = (if execute then h\<lparr>isLoading := True\<rparr> else h)"

record stream =
  seen_execute :: bool     \<comment> \<open>\<open>execute\<close> as the handlers hold it\<close>
  seen_prompt :: string    \<comment> \<open>\<open>prompt\<close> as the handlers hold it\<close>
  request_body :: string   \<comment> \<open>\<open>request.body\<close>\<close>
  so_far :: string         \<comment> \<open>the variable \<open>text\<close>\<close>

definition open_stream :: "preferences \<Rightarrow> string \<Rightarrow> string \<Rightarrow> string \<Rightarrow> stream" where
  \<comment> \<open>The response of an asynchronous request. The request is sent under
      \<open>if (execute)\<close>, so its handlers hold \<open>execute = true\<close>.\<close>
  "open_stream prefs basePrompt prompt input =
     \<lparr>seen_execute = True, seen_prompt = prompt,
      request_body = async_body prefs basePrompt prompt input, so_far = []\<rparr>"

definition on_end :: "stream \<Rightarrow> model_view \<Rightarrow> model_view" where
  \<comment> \<open>The handler of \<open>end\<close>.\<close>
  "on_end st h =
     (if str_includes (request_body st) (clean (seen_prompt st))
         \<or> str_includes (request_body st) (clean (seen_prompt st))
      then h\<lparr>isLoading := False\<rparr> else h)"

definition on_chunk :: "stream \<Rightarrow> string list \<Rightarrow> model_view \<Rightarrow> stream \<times> model_view" where
  \<comment> \<open>The handler of \<open>data\<close> for one chunk; \<open>outputs\<close> are the texts of the values
      extracted from those \<open>data:\<close> lines of the chunk that parse, in order.\<close>
  "on_chunk st outputs h =
     (let h1 = h\<lparr>dataTag := Some (request_body st)\<rparr>
      in if \<not> seen_execute st \<and> length (so_far st) > 0 then (st, on_end st h1)
         else (let t = foldl accumulate (so_far st) outputs
               in (st\<lparr>so_far := t\<rparr>, if outputs = [] then h1 else h1\<lparr>data := t\<rparr>)))"

subsection \<open>Reference notions for the request body\<close>

definition replaces_first :: "string \<Rightarrow> string \<Rightarrow> string \<Rightarrow> string \<Rightarrow> bool" where
  \<comment> \<open>\<open>r\<close> is \<open>s\<close> with the first occurrence of the token, if there is one, replaced by
      the value as it stands.\<close>
  "replaces_first tok val s r \<longleftrightarrow>
     (\<not> sublist tok s \<and> r = s) \<or>
     (\<exists>pre post. s = pre @ tok @ post \<and>
        (\<forall>p q. s = p @ tok @ q \<longrightarrow> length pre \<le> length p) \<and>
        r = pre @ val @ post)"

fun has_pattern :: "string \<Rightarrow> bool" where
  \<comment> \<open>The replacement string holds one of the four patterns that \<open>replace\<close> expands: a
      dollar sign followed by a dollar sign, an ampersand, a backquote or a single quote.\<close>
  "has_pattern [] = False"
| "has_pattern [c] = False"
| "has_pattern (c # d # r) =
     ((c = CHR ''$'' \<and> (d = CHR ''$'' \<or> d = CHR ''&'' \<or> d = CHR 0x60 \<or> d = CHR 0x27))
      \<or> has_pattern (d # r))"

definition scenario_prefs :: preferences where
  \<comment> \<open>Preferences of the scenarios: a local endpoint, the template \<open>{"q":"{prompt}"}\<close>,
      no prefix and no suffix.\<close>
  "scenario_prefs =
     \<lparr>modelEndpoint = ''http://localhost:8000/v1'',
      inputSchema = [CHR ''{'', dquote, CHR ''q'', dquote, CHR '':'', dquote] @ ''{prompt}''
                      @ [dquote, CHR ''}''],
      promptPrefix = [], promptSuffix = [], outputKeyPath = ''choices[0].text'',
      outputTiming = ''sync'', authType = ''bearerToken'', apiKey = ''k''\<rparr>"

lemma find_token_nonempty:
  "find (\<lambda>(tok, val). tok \<noteq> [] \<and> prefix tok s) subs = Some (tok, val) \<Longrightarrow> tok \<noteq> []"
  by (auto simp: find_Some_iff)

function substitute_all :: "(string \<times> string) list \<Rightarrow> string \<Rightarrow> string" where
  \<comment> \<open>The text with every occurrence of every token replaced by the token's value, read
      from left to right; replaced text is not read again.\<close>
  "substitute_all subs [] = []"
| "substitute_all subs (c # cs) =
     (case find (\<lambda>(tok, val). tok \<noteq> [] \<and> prefix tok (c # cs)) subs of
        Some (tok, val) \<Rightarrow> val @ substitute_all subs (drop (length tok) (c # cs))
      | None \<Rightarrow> c # substitute_all subs cs)"
  by pat_completeness auto
termination
  by (relation "measure (\<lambda>(subs, s). length s)") (auto dest!: find_token_nonempty)

definition substituted_body :: "preferences \<Rightarrow> string \<Rightarrow> string \<Rightarrow> string \<Rightarrow> string" where
  \<comment> \<open>The body as the specification words it: the template with the three tokens
      substituted by their values.\<close>
  "substituted_body prefs basePrompt prompt input =
     substitute_all
       [(''{prompt}'', promptPrefix prefs @ clean prompt @ promptSuffix prefs),
        (''{basePrompt}'', promptPrefix prefs @ clean basePrompt),
        (''{input}'',
           if sublist ''{prompt'' (inputSchema prefs) \<and> prompt = input then []
           else clean input @ promptSuffix prefs)]
       (inputSchema prefs)"

subsection \<open>Reference notion for the tokenizer\<close>

function bracket_groups :: "string \<Rightarrow> string list" where
  \<comment> \<open>A segment as the specification words it: \<open>name[idx]\<close> gives \<open>name\<close> and
      \<open>idx\<close>, group after group; a bracket that is never closed opens no group.\<close>
  "bracket_groups s =
     (let name = takeWhile (\<lambda>c. c \<noteq> CHR ''['') s;
          rest = dropWhile (\<lambda>c. c \<noteq> CHR ''['') s
      in if rest = [] then [name]
         else (let idx = takeWhile (\<lambda>c. c \<noteq> CHR '']'') (tl rest);
                   after = dropWhile (\<lambda>c. c \<noteq> CHR '']'') (tl rest)
               in if after = [] then [s] else name # idx # bracket_groups (tl after)))"
  by pat_completeness auto
termination
proof (relation "measure length", goal_cases)
  case 1
  show ?case by simp
next
  case (2 s name rest idx after)
  have "length after \<le> length (tl rest)" unfolding 2(5) by (rule length_dropWhile_le)
  moreover have "length rest \<le> length s" unfolding 2(2) by (rule length_dropWhile_le)
  moreover have "length (tl after) < length after" using 2(6) by (cases after) simp_all
  moreover have "length (tl rest) < length rest" using 2(3) by (cases rest) simp_all
  ultimately show ?case by simp
qed

declare bracket_groups.simps [simp del]

definition path_tokens :: "string \<Rightarrow> string list" where
  \<comment> \<open>The tokens of a path as the specification words it: the path split on the dot,
      every segment split on its bracket groups, empty tokens dropped.\<close>
  "path_tokens pathString =
     concat (map (\<lambda>item. filter (\<lambda>key. key \<noteq> []) (bracket_groups item))
                 (split_on (CHR ''.'') pathString))"

section \<open>Numbers read from strings\<close>

text \<open>
  The loop test of \<open>onSubmit\<close> adds a number to a string and compares the resulting
  string with a number, so the string is read as a numeric literal. \<open>str_to_number\<close>
  is that reading: white space is stripped at both ends, the empty string is 0, a
  literal is a signed decimal (with an optional fraction and exponent), \<open>Infinity\<close>, or
  an unsigned hexadecimal, octal or binary integer, and everything else is \<open>NaN\<close>.
  \<open>Fin\<close> holds the exact value of the literal.
\<close>

definition digit_char :: "nat \<Rightarrow> char" where
  "digit_char d = ''0123456789'' ! d"

function show_nat :: "nat \<Rightarrow> string" where
  \<comment> \<open>The decimal digits of a length, as string concatenation writes a number.\<close>
  "show_nat n = (if n < 10 then [digit_char n] else show_nat (n div 10) @ [digit_char (n mod 10)])"
  by pat_completeness auto
termination
  by (relation "measure id") auto

declare show_nat.simps [simp del]

fun join :: "string \<Rightarrow> string list \<Rightarrow> string" where
  \<comment> \<open>\<open>xs.join(sep)\<close>\<close>
  "join sep [] = []"
| "join sep [x] = x"
| "join sep (x # y # ys) = x @ sep @ join sep (y # ys)"

definition hex_val :: "char \<Rightarrow> nat option" where
  "hex_val c =
     (let n = (of_char c :: nat)
      in if 48 \<le> n \<and> n \<le> 57 then Some (n - 48)
         else if 97 \<le> n \<and> n \<le> 102 then Some (n - 87)
         else if 65 \<le> n \<and> n \<le> 70 then Some (n - 55)
         else None)"

definition radix_literal :: "nat \<Rightarrow> string \<Rightarrow> jsnum" where
  \<comment> \<open>The digits after \<open>0x\<close>, \<open>0o\<close> or \<open>0b\<close>: at least one, each below the radix.\<close>
  "radix_literal b ds =
     (if ds \<noteq> [] \<and> list_all (\<lambda>c. case hex_val c of Some v \<Rightarrow> v < b | None \<Rightarrow> False) ds
      then Fin (of_nat (foldl (\<lambda>n c. b * n + the (hex_val c)) 0 ds))
      else NaN)"

definition exponent_part :: "string \<Rightarrow> int option" where
  \<comment> \<open>What follows \<open>e\<close> or \<open>E\<close>: an optional sign and at least one digit.\<close>
  "exponent_part e =
     (let ds = (if e \<noteq> [] \<and> (hd e = CHR ''+'' \<or> hd e = CHR ''-'') then tl e else e)
      in if ds \<noteq> [] \<and> list_all is_digit ds
         then Some (if e \<noteq> [] \<and> hd e = CHR ''-'' then - int (digits_value ds)
                    else int (digits_value ds))
         else None)"

definition scale10 :: "rat \<Rightarrow> int \<Rightarrow> rat" where
  "scale10 r k = (if 0 \<le> k then r * 10 ^ nat k else r / 10 ^ nat (- k))"

definition unsigned_decimal :: "string \<Rightarrow> jsnum" where
  \<comment> \<open>\<open>Infinity\<close>, or digits with an optional point and an optional exponent; there is a
      digit before or after the point.\<close>
  "unsigned_decimal u =
     (if u = ''Infinity'' then PosInf
      else
        (let m = takeWhile (\<lambda>c. c \<noteq> CHR ''e'' \<and> c \<noteq> CHR ''E'') u;
             e = dropWhile (\<lambda>c. c \<noteq> CHR ''e'' \<and> c \<noteq> CHR ''E'') u;
             ip = takeWhile (\<lambda>c. c \<noteq> CHR ''.'') m;
             rest = dropWhile (\<lambda>c. c \<noteq> CHR ''.'') m;
             fp = (if rest = [] then [] else tl rest)
         in if list_all is_digit ip \<and> list_all is_digit fp \<and> (ip \<noteq> [] \<or> fp \<noteq> [])
            then (case (if e = [] then Some 0 else exponent_part (tl e)) of
                    None \<Rightarrow> NaN
                  | Some k \<Rightarrow> Fin (scale10 (of_nat (digits_value (ip @ fp))) (k - int (length fp))))
            else NaN))"

definition negate :: "jsnum \<Rightarrow> jsnum" where
  "negate x = (case x of NaN \<Rightarrow> NaN | Fin r \<Rightarrow> Fin (- r) | PosInf \<Rightarrow> NegInf | NegInf \<Rightarrow> PosInf)"

definition str_to_number :: "string \<Rightarrow> jsnum" where
  "str_to_number s =
     (let t = trim s
      in if t = [] then Fin 0
         else if take 2 t = ''0x'' \<or> take 2 t = ''0X'' then radix_literal 16 (drop 2 t)
         else if take 2 t = ''0o'' \<or> take 2 t = ''0O'' then radix_literal 8 (drop 2 t)
         else if take 2 t = ''0b'' \<or> take 2 t = ''0B'' then radix_literal 2 (drop 2 t)
         else if hd t = CHR ''+'' then unsigned_decimal (tl t)
         else if hd t = CHR ''-'' then negate (unsigned_decimal (tl t))
         else unsigned_decimal t)"

definition gt_3900 :: "jsnum \<Rightarrow> bool" where
  \<comment> \<open>\<open>x > 3900\<close>. A literal stands for the double nearest to its value, and the doubles
      around 3900 lie \<open>2^-41\<close> apart, so a literal is above 3900 when its value is above
      \<open>3900 + 2^-42\<close>; a comparison with \<open>NaN\<close> is false.\<close>
  "gt_3900 x =
     (case x of NaN \<Rightarrow> False | Fin r \<Rightarrow> r > 3900 + 1 / 2 ^ 42 | PosInf \<Rightarrow> True
              | NegInf \<Rightarrow> False)"

section \<open>The conversation session (CommandChatView.tsx)\<close>

record chat_state =
  query :: string
  sentQuery :: string
  currentResponse :: string
  previousResponse :: string
  enableModel :: bool
  queryError :: "string option"
  conversation :: "string list"

record form_values =
  queryField :: string
  responseField :: string
  useFilesCheckbox :: bool
  useConversationCheckbox :: bool

record file_contents =
  \<comment> \<open>What \<open>useFileContents\<close> hands to the view.\<close>
  selectedFiles :: "string list option"
  contentPrompts :: "string list"
  contentIsLoading :: bool

datatype effect =
    CallerCancel         \<comment> \<open>the \<open>cancel\<close> of the props\<close>
  | CallerRevalidate     \<comment> \<open>the \<open>revalidate\<close> of the props\<close>
  | Request request      \<comment> \<open>a request to the model\<close>

definition initial_state :: "string \<Rightarrow> string \<Rightarrow> string option \<Rightarrow> chat_state" where
  \<comment> \<open>The state after the first render and its effects; \<open>prompt\<close>, \<open>response\<close> and
      \<open>initialQuery\<close> are the props.\<close>
  "initial_state prompt response initialQuery =
     (case initialQuery of
        Some q \<Rightarrow>
          if length q > 0 then
            \<lparr>query = q, sentQuery = q, currentResponse = response, previousResponse = response,
             enableModel = True, queryError = None, conversation = [prompt, response]\<rparr>
          else
            \<lparr>query = [], sentQuery = [], currentResponse = response, previousResponse = [],
             enableModel = False, queryError = None, conversation = [prompt]\<rparr>
      | None \<Rightarrow>
          \<lparr>query = [], sentQuery = [], currentResponse = response, previousResponse = [],
           enableModel = False, queryError = None, conversation = [prompt]\<rparr>)"

definition reattempt :: "bool \<Rightarrow> preferences \<Rightarrow> string \<Rightarrow> chat_state \<Rightarrow> effect list" where
  \<comment> \<open>\<open>reattempt\<close> is the \<open>revalidate\<close> of \<open>useModel(prompt, sentQuery, "", enableModel)\<close>.\<close>
  "reattempt canAccessAI prefs prompt s =
     map Request (revalidate (useModel canAccessAI prefs prompt (sentQuery s) [] (enableModel s)))"

definition shift :: "string list \<Rightarrow> string list" where
  \<comment> \<open>\<open>convo.shift()\<close>: drops the first entry; an empty array stays empty.\<close>
  "shift convo = (case convo of [] \<Rightarrow> [] | x # xs \<Rightarrow> xs)"

partial_function (option) trim_conversation :: "string \<Rightarrow> string list \<Rightarrow> string list option" where
  \<comment> \<open>\<open>while (values.queryField + convo.join("\n").length > 3900) convo.shift()\<close>: the
      length is appended to the query as text, and that text is compared with 3900.
      \<open>None\<close> is a loop that never ends.\<close>
  "trim_conversation qf convo =
     (if gt_3900 (str_to_number (qf @ show_nat (length (join [newline] convo))))
      then trim_conversation qf (shift convo)
      else Some convo)"

definition sent_query_text ::
  "string \<Rightarrow> file_contents \<Rightarrow> string \<Rightarrow> chat_state \<Rightarrow> form_values \<Rightarrow> string" where
  \<comment> \<open>The template literal handed to \<open>setSentQuery\<close>; it reads the conversation of the
      state, not the trimmed copy.\<close>
  "sent_query_text prompt files subbedPrompt s v =
     (if length (responseField v) > 0 then
        ''You are an interactive chatbot, and I am giving you instructions. You will use this base prompt for context as you consider my next input. Here is the prompt: ###''
        @ prompt @ ''###'' @ [newline, newline]
        @ (if useFilesCheckbox v \<and>
              (case selectedFiles files of Some fs \<Rightarrow> length fs > 0 | None \<Rightarrow> False)
           then '' You will also consider the following details about selected files. Here are the file details: ###''
                @ join [newline] (contentPrompts files) @ ''###'' @ [newline, newline]
           else [])
        @ (if useConversationCheckbox v
           then ''You will also consider our conversation history. The history so far: ###''
                @ join [newline] (conversation s)
           else ''You will also consider your previous response. Your previous response was: ###''
                @ responseField v)
        @ ''###'' @ [newline, newline] @ ''My next input is: ###''
      else [])
     @ [newline] @ replicate 18 (CHR '' '') @ subbedPrompt @ ''###''"

definition onSubmit ::
  "bool \<Rightarrow> preferences \<Rightarrow> string \<Rightarrow> file_contents \<Rightarrow> string \<Rightarrow> chat_state \<Rightarrow> form_values
     \<Rightarrow> (chat_state \<times> effect list) option" where
  \<comment> \<open>\<open>subbedPrompt\<close> is what \<open>runReplacements\<close> returns. The function that would call
      \<open>revalidateFiles\<close> is awaited but never called, so it has no effect. \<open>None\<close>: the
      handler never returns.\<close>
  "onSubmit canAccessAI prefs prompt files subbedPrompt s v =
     (if length (queryField v) = 0 then
        Some (s\<lparr>queryError := Some ''Query cannot be empty''\<rparr>, [])
      else
        (case trim_conversation (queryField v)
                (conversation s @ [responseField v, queryField v]) of
           None \<Rightarrow> None
         | Some convo \<Rightarrow>
             Some (s\<lparr>queryError := None,
                     previousResponse := responseField v,
                     currentResponse := [],
                     conversation := convo,
                     enableModel := True,
                     sentQuery := sent_query_text prompt files subbedPrompt s v\<rparr>,
                   reattempt canAccessAI prefs prompt s)))"

definition onCancel :: "chat_state \<Rightarrow> chat_state \<times> effect list" where
  \<comment> \<open>The action of the Cancel entry.\<close>
  "onCancel s =
     (if length (previousResponse s) > 0 then (s\<lparr>enableModel := False\<rparr>, [])
      else (s, [CallerCancel]))"

definition onRegenerate ::
  "bool \<Rightarrow> preferences \<Rightarrow> string \<Rightarrow> chat_state \<Rightarrow> chat_state \<times> effect list" where
  \<comment> \<open>The action of the Regenerate entry: \<open>reattempt\<close> or the \<open>revalidate\<close> of the props.\<close>
  "onRegenerate canAccessAI prefs prompt s =
     (if length (previousResponse s) > 0 then (s, reattempt canAccessAI prefs prompt s)
      else (s, [CallerRevalidate]))"

definition onData :: "string \<Rightarrow> chat_state \<Rightarrow> chat_state" where
  \<comment> \<open>The effect on \<open>data\<close>: text from the model becomes the displayed response.\<close>
  "onData d s = (if length d > 0 then s\<lparr>currentResponse := d\<rparr> else s)"

definition onLoaded :: "bool \<Rightarrow> chat_state \<Rightarrow> chat_state" where
  \<comment> \<open>The effect on \<open>enableModel\<close> and \<open>loading\<close>.\<close>
  "onLoaded loading s = (if \<not> loading \<and> enableModel s = True then s\<lparr>enableModel := False\<rparr> else s)"

definition idle :: "bool \<Rightarrow> model_view \<Rightarrow> bool" where
  \<comment> \<open>The form offers Submit and not Cancel: \<open>isLoading || loading\<close> is false, where
      \<open>isLoading\<close> is the one of the props and \<open>loading\<close> the \<open>isLoading\<close> of the
      hook's result.\<close>
  "idle parentLoading h \<longleftrightarrow> \<not> (parentLoading \<or> isLoading h)"

definition streaming_prefs :: preferences where
  \<comment> \<open>The preferences of the scenarios with \<open>outputTiming\<close> set to \<open>async\<close>.\<close>
  "streaming_prefs = scenario_prefs\<lparr>outputTiming := ''async''\<rparr>"

definition asked_chat :: chat_state where
  \<comment> \<open>A session opened with the query \<open>Why?\<close> on the response \<open>An answer\<close>, after
      the first text of the new response has arrived.\<close>
  "asked_chat = onData ''Hel'' (initial_state ''Summarize this'' ''An answer'' (Some ''Why?''))"

definition asked_stream :: stream where
  \<comment> \<open>The response to that query after its first chunk.\<close>
  "asked_stream =
     fst (on_chunk (open_stream streaming_prefs ''Summarize this'' ''Why?'' []) [''Hel'']
            (fetch_effect True fetch_initial))"

definition asked_hook :: model_view where
  \<comment> \<open>The state of the hook after that chunk.\<close>
  "asked_hook =
     snd (on_chunk (open_stream streaming_prefs ''Summarize this'' ''Why?'' []) [''Hel'']
            (fetch_effect True fetch_initial))"

definition no_files :: file_contents where
  "no_files = \<lparr>selectedFiles = None, contentPrompts = [], contentIsLoading = False\<rparr>"

definition long_answer :: string where
  \<comment> \<open>A response of 4000 characters.\<close>
  "long_answer = replicate 4000 (CHR ''x'')"

section \<open>Properties of the key-path extractor\<close>

lemma truthy_not_nullish: "truthy x \<Longrightarrow> x \<noteq> JNull \<and> x \<noteq> JUndef"
  by (cases x) simp_all

lemma falsy_values:
  "\<not> truthy (JStr [])" "\<not> truthy (JNum (Fin 0))" "\<not> truthy (JBool False)" "\<not> truthy JNull"
  by simp_all

lemma own_property_object: "own_property (JObj kvs) k = None \<longleftrightarrow> k \<notin> fst ` set kvs"
  by (simp add: map_of_eq_None_iff)




lemma walk_falsy:
  "cur \<noteq> JNull \<Longrightarrow> cur \<noteq> JUndef \<Longrightarrow> 0 < i \<Longrightarrow> i \<le> length ks
   \<Longrightarrow> descend rt cur (take i ks) = Some w \<Longrightarrow> \<not> truthy w \<Longrightarrow> walk rt cur ks d = Inr d"
proof (induction ks arbitrary: cur i)
  case Nil
  then show ?case by simp
next
  case (Cons k ks)
  obtain j where j: "i = Suc j" using Cons.prems(3) by (cases i) simp_all
  obtain x where x: "get_property rt cur k = Inr x"
    using Cons.prems(5) j by (cases "get_property rt cur k") simp_all
  show ?case
  proof (cases "truthy x")
    case False
    then show ?thesis using x by simp
  next
    case True
    then have nn: "x \<noteq> JNull" "x \<noteq> JUndef" using truthy_not_nullish by blast+
    have d: "descend rt x (take j ks) = Some w" using Cons.prems(5) x j by simp
    have "j \<noteq> 0" using d True Cons.prems(6) by (cases j) auto
    then have "walk rt x ks d = Inr d"
      using Cons.IH [of x j] nn d Cons.prems(4,6) j by simp
    then show ?thesis using x True by simp
  qed
qed

lemma typeof_object_cases:
  "typeof obj = ''object'' \<Longrightarrow> obj \<noteq> JNull \<Longrightarrow> obj \<noteq> JUndef"
  by (cases obj) simp_all





text \<open>
  On \<open>null\<close> the type test passes, and reading the first token throws. A path that
  leads through an inherited function to one of its throwing accessors throws too, and
  a token that names an inherited member is not missing: the member is returned.
\<close>

lemma get_null_raises: "get rt JNull ''a'' d = Inl TypeError"
proof -
  have "tokenize ''a'' = [''a'']" by code_simp
  then show ?thesis by (simp add: get_def get_property_def)
qed

lemma get_accessor_raises:
  "get std_runtime (JObj [(''a'', JNum (Fin 1))]) ''constructor.caller'' (JStr ''none'')
     = Inl TypeError"
  by code_simp

lemma get_inherited_member:
  "get std_runtime (JObj [(''a'', JArr [JStr ''x''])]) ''a.map'' (JStr ''none'')
     = Inr (JNative ''map'')"
  by code_simp

text \<open>
  Claim C10. For every object or array and every path, when a value that the traversal
  reaches after one or more tokens is falsy (the empty string, 0, false and null are; see
  \<open>falsy_values\<close>), the extractor returns the supplied default and not that value, also
  when the key is present.
\<close>

theorem get_falsy_value_gives_default:
  assumes "typeof obj = ''object''" and "obj \<noteq> JNull"
    and "0 < i" and "i \<le> length (tokenize p)"
    and "descend rt obj (take i (tokenize p)) = Some w"
    and "\<not> truthy w"
  shows "get rt obj p d = Inr d"
proof -
  have "obj \<noteq> JUndef" using assms(1,2) typeof_object_cases by blast
  then have "walk rt obj (tokenize p) d = Inr d"
    using walk_falsy [of obj i "tokenize p" rt w d] assms by blast
  then show ?thesis using assms(1) by (simp add: get_def)
qed

theorem get_falsy_value_gives_default_witness:
  "typeof (JObj [(''usage'', JObj [(''count'', JNum (Fin 0))])]) = ''object'' \<and>
   JObj [(''usage'', JObj [(''count'', JNum (Fin 0))])] \<noteq> JNull \<and>
   (0::nat) < 2 \<and> 2 \<le> length (tokenize ''usage.count'') \<and>
   descend std_runtime (JObj [(''usage'', JObj [(''count'', JNum (Fin 0))])])
     (take 2 (tokenize ''usage.count'')) = Some (JNum (Fin 0)) \<and>
   \<not> truthy (JNum (Fin 0)) \<and>
   get std_runtime (JObj [(''usage'', JObj [(''count'', JNum (Fin 0))])]) ''usage.count''
     (JStr ''none'') = Inr (JStr ''none'')"
proof -
  let ?o = "JObj [(''usage'', JObj [(''count'', JNum (Fin 0))])]"
  have t: "tokenize ''usage.count'' = [''usage'', ''count'']" by code_simp
  have ds: "descend std_runtime ?o (take 2 (tokenize ''usage.count'')) = Some (JNum (Fin 0))"
    unfolding t by code_simp
  have ty: "typeof ?o = ''object''" "?o \<noteq> JNull" by simp_all
  have f: "\<not> truthy (JNum (Fin 0))" by simp
  have len: "(0::nat) < 2" "2 \<le> length (tokenize ''usage.count'')" unfolding t by simp_all
  have "get std_runtime ?o ''usage.count'' (JStr ''none'') = Inr (JStr ''none'')"
    using get_falsy_value_gives_default [OF ty len ds f] .
  then show ?thesis using ty len ds f by blast
qed

section \<open>Properties of the string operations\<close>

lemma find_split_None: "find_split t s = None \<longleftrightarrow> \<not> sublist t s"
  by (induction s) (auto simp: sublist_Cons_right)

lemma find_split_Some:
  "find_split t s = Some (pre, post) \<Longrightarrow>
     s = pre @ t @ post \<and> (\<forall>p q. s = p @ t @ q \<longrightarrow> length pre \<le> length p)"
proof (induction s arbitrary: pre)
  case Nil
  then show ?case by (simp split: if_splits)
next
  case (Cons c cs)
  show ?case
  proof (cases "prefix t (c # cs)")
    case True
    then have "pre = []" "post = drop (length t) (c # cs)" using Cons.prems by simp_all
    moreover have "c # cs = t @ drop (length t) (c # cs)"
      using True by (metis append_eq_conv_conj prefixE)
    ultimately show ?thesis by simp
  next
    case False
    then obtain pre' where p: "find_split t cs = Some (pre', post)" "pre = c # pre'"
      using Cons.prems by auto
    have ih: "cs = pre' @ t @ post \<and> (\<forall>p q. cs = p @ t @ q \<longrightarrow> length pre' \<le> length p)"
      using Cons.IH [OF p(1)] .
    have "length pre \<le> length p'" if eq: "c # cs = p' @ t @ q" for p' q
    proof (cases p')
      case Nil
      then have "prefix t (c # cs)" using eq by simp
      then show ?thesis using False by simp
    next
      case (Cons a p'')
      then have "cs = p'' @ t @ q" using eq by simp
      then have "length pre' \<le> length p''" using ih by blast
      then show ?thesis using Cons p(2) by simp
    qed
    then show ?thesis using ih p(2) by simp
  qed
qed

lemma str_includes_sublist: "str_includes s t \<longleftrightarrow> sublist t s"
  by (simp add: str_includes_def find_split_None)

lemma get_substitution_literal:
  "\<not> has_pattern repl \<Longrightarrow> get_substitution matched pre post repl = repl"
  by (induction matched pre post repl rule: get_substitution.induct) auto

lemma replace_replaces_first:
  assumes "\<not> has_pattern val"
  shows "replaces_first tok val s (replace s tok val)"
proof (cases "find_split tok s")
  case None
  then have "\<not> sublist tok s" "replace s tok val = s"
    by (simp_all add: replace_def find_split_None [symmetric])
  then show ?thesis unfolding replaces_first_def by blast
next
  case (Some a)
  obtain pre post where a: "a = (pre, post)" by (cases a)
  have "s = pre @ tok @ post \<and> (\<forall>p q. s = p @ tok @ q \<longrightarrow> length pre \<le> length p)"
    using find_split_Some Some a by blast
  moreover have "replace s tok val = pre @ val @ post"
    using Some a assms by (simp add: replace_def get_substitution_literal)
  ultimately show ?thesis unfolding replaces_first_def by blast
qed

lemma collapse_ws_set: "set (collapse_ws s) \<subseteq> insert (CHR '' '') (set s)"
proof (induction s rule: collapse_ws.induct)
  case 1
  show ?case by simp
next
  case (2 c cs)
  have "set (dropWhile is_ws cs) \<subseteq> set cs" by (simp add: set_dropWhileD subsetI)
  then show ?case using 2 by (auto split: if_splits)
qed

lemma escape_quotes_set: "set (escape_quotes s) \<subseteq> insert backslash (set s)"
  by (induction s) (auto simp: escape_quotes_def)

text \<open>What \<open>collapse_ws\<close> does, run by run.\<close>

lemma collapse_ws_no_ws: "\<forall>c \<in> set s. \<not> is_ws c \<Longrightarrow> collapse_ws s = s"
  by (induction s) simp_all

lemma collapse_ws_run:
  assumes "w \<noteq> []" and "\<forall>c \<in> set w. is_ws c" and "s = [] \<or> \<not> is_ws (hd s)"
  shows "collapse_ws (w @ s) = CHR '' '' # collapse_ws s"
proof -
  obtain a w' where w: "w = a # w'" using assms(1) by (cases w) simp_all
  have "dropWhile is_ws (w' @ s) = s"
    using assms(2,3) w by (cases s) (simp_all add: dropWhile_append3 dropWhile_append2)
  then show ?thesis using w assms(2) by simp
qed

lemma collapse_ws_only_spaces: "c \<in> set (collapse_ws s) \<Longrightarrow> is_ws c \<Longrightarrow> c = CHR '' ''"
proof (induction s rule: collapse_ws.induct)
  case 1
  then show ?case by simp
next
  case (2 a cs)
  then show ?case by (auto split: if_splits)
qed

lemma escape_quotes_no_quote: "dquote \<notin> set s \<Longrightarrow> escape_quotes s = s"
  by (induction s) (auto simp: escape_quotes_def)

lemma escape_quotes_append: "escape_quotes (a @ b) = escape_quotes a @ escape_quotes b"
  by (simp add: escape_quotes_def)

lemma escape_quotes_quote: "escape_quotes [dquote] = [backslash, dquote]"
  by (simp add: escape_quotes_def)

section \<open>Properties of the endpoint invoker\<close>

text \<open>
  Claim C3. One extracted chunk value updates the accumulated text so: when the value
  contains the text so far as a substring, it replaces the text (a snapshot), otherwise it
  is appended (a delta). The chunks He, Hello give Hello, and the chunks He, llo give
  Hello too.
\<close>

theorem accumulate_snapshot_or_delta:
  "accumulate text output = (if sublist text output then output else text @ output) \<and>
   accumulate_all (outputs @ [output]) = accumulate (accumulate_all outputs) output \<and>
   accumulate_all [] = [] \<and>
   accumulate_all [''He'', ''Hello''] = ''Hello'' \<and>
   accumulate_all [''He'', ''llo''] = ''Hello''"
proof (intro conjI)
  show "accumulate text output = (if sublist text output then output else text @ output)"
    by (simp add: accumulate_def str_includes_sublist)
  show "accumulate_all (outputs @ [output]) = accumulate (accumulate_all outputs) output"
    by (simp add: accumulate_all_def)
  show "accumulate_all [] = []"
    by (simp add: accumulate_all_def)
  show "accumulate_all [''He'', ''Hello''] = ''Hello''"
    by code_simp
  show "accumulate_all [''He'', ''llo''] = ''Hello''"
    by code_simp
qed

text \<open>
  Claim C4, as the code has it. In the synchronous branch the request body is the
  template in which first the first occurrence of \<open>{prompt}\<close> is replaced by prefix,
  cleaned prompt and suffix, then in the result the first occurrence of \<open>{basePrompt}\<close>
  by prefix and cleaned base prompt, then in that result the first occurrence of
  \<open>{input}\<close> by the cleaned input and suffix, or by nothing when the template contains
  \<open>{prompt\<close> and input and prompt are equal. Cleaning collapses every run of white
  space to one space and puts a backslash before every double quote. This holds when none
  of the three values put in holds a dollar sign followed by a dollar sign, an ampersand,
  a backquote or a single quote; any other dollar sign is put in as it stands.
\<close>

theorem sync_body_substitutes_first_occurrences:
  assumes "\<not> has_pattern (promptPrefix prefs @ clean prompt @ promptSuffix prefs)"
    and "\<not> has_pattern (promptPrefix prefs @ clean basePrompt)"
    and "\<not> has_pattern (if sublist ''{prompt'' (inputSchema prefs) \<and> prompt = input then []
                          else clean input @ promptSuffix prefs)"
  shows "\<exists>r1 r2.
     replaces_first ''{prompt}'' (promptPrefix prefs @ clean prompt @ promptSuffix prefs)
       (inputSchema prefs) r1 \<and>
     replaces_first ''{basePrompt}'' (promptPrefix prefs @ clean basePrompt) r1 r2 \<and>
     replaces_first ''{input}''
       (if sublist ''{prompt'' (inputSchema prefs) \<and> prompt = input then []
        else clean input @ promptSuffix prefs)
       r2 (sync_body prefs basePrompt prompt input)"
proof -
  let ?v1 = "promptPrefix prefs @ clean prompt @ promptSuffix prefs"
  let ?v2 = "promptPrefix prefs @ clean basePrompt"
  let ?v3 = "if sublist ''{prompt'' (inputSchema prefs) \<and> prompt = input then []
             else clean input @ promptSuffix prefs"
  let ?r1 = "replace (inputSchema prefs) ''{prompt}'' ?v1"
  let ?r2 = "replace ?r1 ''{basePrompt}'' ?v2"
  have b: "sync_body prefs basePrompt prompt input = replace ?r2 ''{input}'' ?v3"
    by (simp add: sync_body_def str_includes_sublist)
  have "replaces_first ''{prompt}'' ?v1 (inputSchema prefs) ?r1"
    using replace_replaces_first [OF assms(1)] .
  moreover have "replaces_first ''{basePrompt}'' ?v2 ?r1 ?r2"
    using replace_replaces_first [OF assms(2)] .
  moreover have "replaces_first ''{input}'' ?v3 ?r2 (sync_body prefs basePrompt prompt input)"
    unfolding b using replace_replaces_first [OF assms(3)] .
  ultimately show ?thesis by blast
qed

theorem sync_body_substitutes_first_occurrences_witness:
  "\<not> has_pattern (promptPrefix scenario_prefs @ clean (''hi'' @ [newline] @ ''there'')
                     @ promptSuffix scenario_prefs) \<and>
   \<not> has_pattern (promptPrefix scenario_prefs @ clean []) \<and>
   \<not> has_pattern (if sublist ''{prompt'' (inputSchema scenario_prefs)
                        \<and> ''hi'' @ [newline] @ ''there'' = []
                     then [] else clean [] @ promptSuffix scenario_prefs) \<and>
   (\<exists>r1 r2.
     replaces_first ''{prompt}''
       (promptPrefix scenario_prefs @ clean (''hi'' @ [newline] @ ''there'')
          @ promptSuffix scenario_prefs)
       (inputSchema scenario_prefs) r1 \<and>
     replaces_first ''{basePrompt}'' (promptPrefix scenario_prefs @ clean []) r1 r2 \<and>
     replaces_first ''{input}''
       (if sublist ''{prompt'' (inputSchema scenario_prefs) \<and> ''hi'' @ [newline] @ ''there'' = []
        then [] else clean [] @ promptSuffix scenario_prefs)
       r2 (sync_body scenario_prefs [] (''hi'' @ [newline] @ ''there'') [])) \<and>
   sync_body scenario_prefs [] (''hi'' @ [newline] @ ''there'') []
     = [CHR ''{'', dquote, CHR ''q'', dquote, CHR '':'', dquote] @ ''hi there''
         @ [dquote, CHR ''}'']"
proof -
  have h1: "\<not> has_pattern (promptPrefix scenario_prefs @ clean (''hi'' @ [newline] @ ''there'')
                     @ promptSuffix scenario_prefs)"
    by code_simp
  have h2: "\<not> has_pattern (promptPrefix scenario_prefs @ clean [])"
    by code_simp
  have h3: "\<not> has_pattern (if sublist ''{prompt'' (inputSchema scenario_prefs)
                        \<and> ''hi'' @ [newline] @ ''there'' = []
                     then [] else clean [] @ promptSuffix scenario_prefs)"
    by code_simp
  have v: "sync_body scenario_prefs [] (''hi'' @ [newline] @ ''there'') []
     = [CHR ''{'', dquote, CHR ''q'', dquote, CHR '':'', dquote] @ ''hi there''
         @ [dquote, CHR ''}'']"
    by code_simp
  show ?thesis
    using h1 h2 h3 v sync_body_substitutes_first_occurrences [OF h1 h2 h3] by blast
qed

text \<open>
  A dollar sign that starts none of the four patterns is put in as it stands.
\<close>

lemma sync_body_plain_dollar:
  "\<not> has_pattern (clean ''costs $5'') \<and>
   sync_body scenario_prefs [] ''costs $5'' []
     = [CHR ''{'', dquote, CHR ''q'', dquote, CHR '':'', dquote] @ ''costs $5''
         @ [dquote, CHR ''}'']"
  by code_simp

text \<open>
  Claim C4 as it is written (\<open>substituted_body\<close>) fails on a template that holds a
  token twice: only the first occurrence is replaced, and the second stays in the body.
\<close>

theorem sync_body_second_occurrence_counterexample:
  "sync_body (scenario_prefs\<lparr>inputSchema := ''{prompt} and {prompt}''\<rparr>) [] ''hi'' []
     = ''hi and {prompt}'' \<and>
   substituted_body (scenario_prefs\<lparr>inputSchema := ''{prompt} and {prompt}''\<rparr>) [] ''hi'' []
     = ''hi and hi'' \<and>
   sync_body (scenario_prefs\<lparr>inputSchema := ''{prompt} and {prompt}''\<rparr>) [] ''hi'' []
     \<noteq> substituted_body (scenario_prefs\<lparr>inputSchema := ''{prompt} and {prompt}''\<rparr>) []
          ''hi'' []"
  by code_simp

text \<open>
  A dollar sign in a value is read as a pattern of \<open>replace\<close>: the prompt \<open>$&\<close>
  puts the token back.
\<close>

lemma sync_body_dollar_pattern:
  "sync_body scenario_prefs [] ''$&'' [] = inputSchema scenario_prefs \<and>
   substituted_body scenario_prefs [] ''$&'' []
     = [CHR ''{'', dquote, CHR ''q'', dquote, CHR '':'', dquote] @ ''$&'' @ [dquote, CHR ''}'']"
  by code_simp

text \<open>
  Claim C9, as the code has it. When the lower-cased endpoint identifier is one of the
  aliases of the built-in assistant, the assistant is not available, and the base prompt
  and the prompt are not both empty, the hook returns at once the error that the assistant
  is unavailable, with empty data, and starts no request. When both are empty it returns
  the empty-prompt error instead, also with empty data and no request.
\<close>

theorem useModel_assistant_unavailable:
  assumes "toLowerCase (modelEndpoint prefs) \<in> set validRaycastAIReps"
    and "\<not> canAccessAI"
  shows "(\<not> (basePrompt = [] \<and> prompt = []) \<longrightarrow>
            useModel canAccessAI prefs basePrompt prompt input execute
              = Returned \<lparr>data = [], isLoading = False, error = Some RaycastAIUnavailable,
                          dataTag = None\<rparr>) \<and>
         (basePrompt = [] \<and> prompt = [] \<longrightarrow>
            useModel canAccessAI prefs basePrompt prompt input execute
              = Returned \<lparr>data = [], isLoading = False, error = Some PromptCannotBeEmpty,
                          dataTag = None\<rparr>) \<and>
         requests_of (useModel canAccessAI prefs basePrompt prompt input execute) = []"
  using assms by (auto simp: useModel_def)

theorem useModel_assistant_unavailable_witness:
  "toLowerCase (modelEndpoint (scenario_prefs\<lparr>modelEndpoint := ''Raycast AI''\<rparr>))
     \<in> set validRaycastAIReps \<and>
   \<not> False \<and> \<not> (''Summarize this'' = [] \<and> ''Why?'' = []) \<and>
   useModel False (scenario_prefs\<lparr>modelEndpoint := ''Raycast AI''\<rparr>)
       ''Summarize this'' ''Why?'' [] True
     = Returned \<lparr>data = [], isLoading = False, error = Some RaycastAIUnavailable,
                 dataTag = None\<rparr> \<and>
   requests_of (useModel False (scenario_prefs\<lparr>modelEndpoint := ''Raycast AI''\<rparr>)
       ''Summarize this'' ''Why?'' [] True) = []"
proof -
  have h: "toLowerCase (modelEndpoint (scenario_prefs\<lparr>modelEndpoint := ''Raycast AI''\<rparr>))
     \<in> set validRaycastAIReps"
    by code_simp
  have n: "\<not> (''Summarize this'' = [] \<and> ''Why?'' = [])" by simp
  show ?thesis
    using h n useModel_assistant_unavailable
      [of "scenario_prefs\<lparr>modelEndpoint := ''Raycast AI''\<rparr>" False
          "''Summarize this''" "''Why?''" "[]" True]
    by blast
qed

text \<open>
  Claim C9 as it is written fails when the base prompt and the prompt are both empty: the
  check for an empty prompt comes first, and its error is returned.
\<close>

theorem useModel_empty_prompt_counterexample:
  "toLowerCase (modelEndpoint (scenario_prefs\<lparr>modelEndpoint := ''raycast ai''\<rparr>))
     \<in> set validRaycastAIReps \<and>
   useModel False (scenario_prefs\<lparr>modelEndpoint := ''raycast ai''\<rparr>) [] [] [] True
     = Returned \<lparr>data = [], isLoading = False, error = Some PromptCannotBeEmpty,
                 dataTag = None\<rparr> \<and>
   useModel False (scenario_prefs\<lparr>modelEndpoint := ''raycast ai''\<rparr>) [] [] [] True
     \<noteq> Returned \<lparr>data = [], isLoading = False, error = Some RaycastAIUnavailable,
                 dataTag = None\<rparr>"
  by code_simp

section \<open>Properties of the tokenizer\<close>

lemma split_on_absent: "sep \<notin> set s \<Longrightarrow> split_on sep s = [s]"
  by (induction s) auto

lemma trim_clean_ends:
  assumes "s \<noteq> []" and "\<not> is_ws (hd s)" and "\<not> is_ws (last s)"
  shows "trim s = s"
proof -
  have a: "dropWhile is_ws s = s" using assms(1,2) by (cases s) simp_all
  obtain b l where r: "rev s = b # l" using assms(1) by (cases "rev s") simp_all
  have "b = last s" using r assms(1) by (metis hd_rev list.sel(1))
  then have d: "dropWhile is_ws (b # l) = b # l" using assms(3) by simp
  have "trim s = rev (dropWhile is_ws (rev s))" using a by (simp add: trim_def)
  also have "\<dots> = rev (b # l)" unfolding r d ..
  also have "\<dots> = s" unfolding r [symmetric] by simp
  finally show ?thesis .
qed

lemma last_filter_upt:
  assumes "a \<le> n" and "P n"
  shows "filter P [a..<Suc n] \<noteq> [] \<and> last (filter P [a..<Suc n]) = n"
  using assms by simp

lemma match_bracket_group:
  assumes "idx \<noteq> []" and "CHR ''}'' \<notin> set idx"
  shows "match_bracket (CHR ''['' # idx @ '']'') = Some (idx, [])"
proof -
  let ?run = "takeWhile (\<lambda>x. x \<noteq> CHR ''}'') (idx @ '']'')"
  have run: "?run = idx @ '']''" using assms(2) by (auto simp: takeWhile_eq_all_conv)
  have n: "1 \<le> length idx" using assms(1) by (cases idx) simp_all
  have at: "(idx @ '']'') ! length idx = CHR '']''" by simp
  have ks: "filter (\<lambda>k. (idx @ '']'') ! k = CHR '']'') [1..<Suc (length idx)] \<noteq> [] \<and>
            last (filter (\<lambda>k. (idx @ '']'') ! k = CHR '']'') [1..<Suc (length idx)]) = length idx"
    using last_filter_upt [of 1 "length idx" "\<lambda>k. (idx @ '']'') ! k = CHR '']''"] n at by blast
  show ?thesis
    unfolding match_bracket_def using ks by (simp add: run Let_def)
qed

lemma split_brackets_plain:
  "CHR ''['' \<notin> set name \<Longrightarrow> split_brackets acc (name @ rest) = split_brackets (rev name @ acc) rest"
proof (induction name arbitrary: acc)
  case Nil
  show ?case by simp
next
  case (Cons c name)
  then have "c \<noteq> CHR ''[''" by auto
  then have "match_bracket (c # name @ rest) = None" by (simp add: match_bracket_def)
  then show ?case using Cons by simp
qed

lemma split_brackets_name_idx:
  assumes "CHR ''['' \<notin> set name" and "idx \<noteq> []" and "CHR ''}'' \<notin> set idx"
  shows "split_brackets [] (name @ CHR ''['' # idx @ '']'') = [name, idx, []]"
proof -
  have "split_brackets [] (name @ CHR ''['' # idx @ '']'')
          = split_brackets (rev name) (CHR ''['' # idx @ '']'')"
    using split_brackets_plain [OF assms(1), of "[]"] by simp
  also have "\<dots> = [name, idx, []]"
    using match_bracket_group [OF assms(2,3)] by simp
  finally show ?thesis .
qed

text \<open>
  A segment with one bracket group, \<open>name[idx]\<close>, gives the tokens \<open>name\<close> and
  \<open>idx\<close>.
\<close>

lemma tokenize_name_idx:
  assumes "name \<noteq> []" and "\<not> is_ws (hd name)"
    and "CHR ''['' \<notin> set name" and "CHR ''.'' \<notin> set name"
    and "idx \<noteq> []" and "CHR ''}'' \<notin> set idx" and "CHR ''.'' \<notin> set idx"
  shows "tokenize (name @ CHR ''['' # idx @ '']'') = [name, idx]"
proof -
  let ?s = "name @ CHR ''['' # idx @ '']''"
  have "hd ?s = hd name" "last ?s = CHR '']''" using assms(1) by simp_all
  then have t: "trim ?s = ?s"
    using trim_clean_ends [of ?s] assms(2) by (simp add: is_ws_def)
  have "CHR ''.'' \<notin> set ?s" using assms(4,7) by simp
  then have sp: "split_on (CHR ''.'') ?s = [?s]" by (rule split_on_absent)
  show ?thesis
    unfolding tokenize_def t sp
    using split_brackets_name_idx [OF assms(3,5,6)] assms(1,5) by simp
qed

lemma get_choices_example:
  "tokenize ''choices[0].text'' = [''choices'', ''0'', ''text''] \<and>
   path_tokens ''choices[0].text'' = [''choices'', ''0'', ''text''] \<and>
   get std_runtime (JObj [(''choices'', JArr [JObj [(''text'', JStr ''ok'')]])])
     ''choices[0].text'' JUndef = Inr (JStr ''ok'')"
  by code_simp

text \<open>
  Claim C6. The path is split on the dot and every segment on its bracket groups, and
  empty tokens are dropped; \<open>choices[0].text\<close> on \<open>{"choices":[{"text":"ok"}]}\<close>
  gives \<open>ok\<close> (\<open>get_choices_example\<close>), and a segment \<open>name[idx]\<close> gives \<open>name\<close>
  and \<open>idx\<close> (\<open>tokenize_name_idx\<close>). The code departs from the claim on a segment
  with two bracket groups: the character class of the pattern excludes the brace and not
  the bracket, so \<open>a[0][1]\<close> gives the tokens \<open>a\<close> and \<open>0][1\<close> where the
  claim's wording (\<open>path_tokens\<close>) gives \<open>a\<close>, \<open>0\<close> and \<open>1\<close>, and the element
  at \<open>[0][1]\<close> is not found.
\<close>

theorem tokenize_two_bracket_groups:
  "tokenize ''a[0][1]'' = [''a'', ''0][1''] \<and>
   path_tokens ''a[0][1]'' = [''a'', ''0'', ''1''] \<and>
   get std_runtime (JObj [(''a'', JArr [JArr [JStr ''x'', JStr ''y'']])]) ''a[0][1]''
     (JStr ''none'') = Inr (JStr ''none'') \<and>
   walk std_runtime (JObj [(''a'', JArr [JArr [JStr ''x'', JStr ''y'']])])
     (path_tokens ''a[0][1]'') (JStr ''none'') = Inr (JStr ''y'')"
  by code_simp

section \<open>Properties of the conversation session\<close>

lemma show_nat_4020: "show_nat 4020 = ''4020''"
  by (simp add: show_nat.simps digit_char_def)

lemma not_a_number: "str_to_number ''Why?4020'' = NaN"
  by code_simp

lemma length_long_answer: "length long_answer = 4000"
  by (simp add: long_answer_def)

lemma length_long_conversation:
  "length (join [newline] [''Summarize this'', long_answer, ''Why?'']) = 4020"
  using length_long_answer by simp

lemma long_conversation_test:
  "gt_3900 (str_to_number (''Why?'' @ show_nat (length
      (join [newline] [''Summarize this'', long_answer, ''Why?''])))) = False"
  unfolding length_long_conversation show_nat_4020 by (simp add: not_a_number gt_3900_def)

lemma trim_conversation_long:
  "trim_conversation ''Why?'' [''Summarize this'', long_answer, ''Why?'']
     = Some [''Summarize this'', long_answer, ''Why?'']"
  by (subst trim_conversation.simps) (simp only: long_conversation_test if_False)

lemma digit_char_is_digit: "d < 10 \<Longrightarrow> is_digit (digit_char d)"
proof -
  assume "d < 10"
  then have "d \<in> {0,1,2,3,4,5,6,7,8,9}" by auto
  then show ?thesis by (auto simp: digit_char_def is_digit_def)
qed
lemma show_nat_digits: "show_nat n \<noteq> [] \<and> list_all is_digit (show_nat n)"
proof (induction n rule: show_nat.induct)
  case (1 n)
  show ?case
  proof (cases "n < 10")
    case True
    then show ?thesis using digit_char_is_digit [of n] by (subst show_nat.simps, subst show_nat.simps) simp
  next
    case False
    have "n mod 10 < 10" by simp
    then have "is_digit (digit_char (n mod 10))" by (rule digit_char_is_digit)
    then show ?thesis using 1 False by (subst show_nat.simps, subst show_nat.simps) simp
  qed
qed
lemma digits_value_snoc: "digits_value (ds @ [c]) = 10 * digits_value ds + digit_val c"
  by (simp add: digits_value_def)
lemma digits_value_append_ge: "digits_value a \<le> digits_value (a @ ds)"
proof (induction ds rule: rev_induct)
  case Nil
  show ?case by simp
next
  case (snoc c ds)
  have "digits_value (a @ ds @ [c]) = 10 * digits_value (a @ ds) + digit_val c"
    using digits_value_snoc [of "a @ ds" c] by simp
  then show ?case using snoc by simp
qed
lemma digit_not_ws: "is_digit c \<Longrightarrow> \<not> is_ws c"
  by (auto simp: is_digit_def is_ws_def)
lemma digit_plain: "is_digit c \<Longrightarrow> c \<noteq> CHR ''e'' \<and> c \<noteq> CHR ''E'' \<and> c \<noteq> CHR ''.''"
  by (auto simp: is_digit_def)
lemma unsigned_decimal_digits:
  assumes "ds \<noteq> []" and "list_all is_digit ds"
  shows "unsigned_decimal ds = Fin (of_nat (digits_value ds))"
proof -
  have a: "\<forall>c \<in> set ds. c \<noteq> CHR ''e'' \<and> c \<noteq> CHR ''E''" "\<forall>c \<in> set ds. c \<noteq> CHR ''.''"
    using assms(2) digit_plain by (auto simp: list_all_iff)
  have t1: "takeWhile (\<lambda>c. c \<noteq> CHR ''e'' \<and> c \<noteq> CHR ''E'') ds = ds"
    using a(1) by (simp add: takeWhile_eq_all_conv)
  have d1: "dropWhile (\<lambda>c. c \<noteq> CHR ''e'' \<and> c \<noteq> CHR ''E'') ds = []"
    using a(1) by (simp add: dropWhile_eq_Nil_conv)
  have t2: "takeWhile (\<lambda>c. c \<noteq> CHR ''.'') ds = ds"
    using a(2) by (simp add: takeWhile_eq_all_conv)
  have d2: "dropWhile (\<lambda>c. c \<noteq> CHR ''.'') ds = []"
    using a(2) by (simp add: dropWhile_eq_Nil_conv)
  have "is_digit (hd ds)" using assms by (cases ds) simp_all
  then have "hd ds \<noteq> CHR ''I''" by (auto simp: is_digit_def)
  then have n: "ds \<noteq> ''Infinity''" by auto
  show ?thesis
    unfolding unsigned_decimal_def using n assms
    by (simp add: t1 d1 t2 d2 Let_def scale10_def)
qed

lemma str_to_number_digits:
  assumes "ds \<noteq> []" and "list_all is_digit ds"
  shows "str_to_number ds = Fin (of_nat (digits_value ds))"
proof -
  have "is_digit (last ds)" "is_digit (hd ds)" using assms by (simp_all add: list_all_iff)
  then have "\<not> is_ws (last ds)" "\<not> is_ws (hd ds)" using digit_not_ws by blast+
  then have t: "trim ds = ds" using trim_clean_ends [of ds] assms(1) by simp
  have "\<forall>c \<in> set (take 2 ds). is_digit c"
    using assms(2) by (auto simp: list_all_iff dest: in_set_takeD)
  then have p: "take 2 ds \<noteq> ''0x''" "take 2 ds \<noteq> ''0X''" "take 2 ds \<noteq> ''0o''"
    "take 2 ds \<noteq> ''0O''" "take 2 ds \<noteq> ''0b''" "take 2 ds \<noteq> ''0B''"
    by (auto simp: is_digit_def)
  have h: "hd ds \<noteq> CHR ''+''" "hd ds \<noteq> CHR ''-''"
    using \<open>is_digit (hd ds)\<close> by (auto simp: is_digit_def)
  show ?thesis
    unfolding str_to_number_def t using assms(1) p h
    by (simp add: unsigned_decimal_digits [OF assms])
qed

lemma test_3901:
  assumes "ds \<noteq> []" and "list_all is_digit ds"
  shows "gt_3900 (str_to_number (''3901'' @ ds))"
proof -
  let ?s = "''3901'' @ ds"
  have "is_digit (last ds)" using assms by (simp add: list_all_iff)
  then have "\<not> is_ws (last ?s)" using assms(1) digit_not_ws by simp
  moreover have "\<not> is_ws (hd ?s)" by (simp add: is_ws_def)
  ultimately have t: "trim ?s = ?s" using trim_clean_ends [of ?s] by simp
  have all: "list_all is_digit ?s" using assms(2) by (simp add: is_digit_def)
  have u: "unsigned_decimal ?s = Fin (of_nat (digits_value ?s))"
    using unsigned_decimal_digits [of ?s] all by simp
  have "digits_value ''3901'' \<le> digits_value ?s" by (rule digits_value_append_ge)
  moreover have "digits_value ''3901'' = 3901" by (simp add: digits_value_def digit_val_def)
  ultimately have "(3901 :: rat) \<le> of_nat (digits_value ?s)"
    by (metis of_nat_mono of_nat_numeral)
  then have g: "gt_3900 (Fin (of_nat (digits_value ?s)))"
    by (simp add: gt_3900_def)
  have "str_to_number ?s = unsigned_decimal ?s"
    unfolding str_to_number_def t by simp
  then show ?thesis using u g by simp
qed

lemma trim_conversation_3901: "trim_conversation ''3901'' convo = None"
proof -
  have "qf \<noteq> ''3901''" if a: "trim_conversation qf c = Some y" for qf c y
  proof (rule trim_conversation.raw_induct [where P = "\<lambda>q c y. q \<noteq> ''3901''", OF _ a])
    fix tc :: "string \<Rightarrow> string list \<Rightarrow> string list option" and q c z
    assume ih: "\<And>q' c' z'. tc q' c' = Some z' \<Longrightarrow> q' \<noteq> ''3901''"
      and b: "(if gt_3900 (str_to_number (q @ show_nat (length (join [newline] c))))
               then tc q (shift c) else Some c) = Some z"
    show "q \<noteq> ''3901''"
    proof
      assume q: "q = ''3901''"
      have "gt_3900 (str_to_number (q @ show_nat (length (join [newline] c))))"
        unfolding q using test_3901 show_nat_digits by blast
      then have "tc q (shift c) = Some z" using b by simp
      then show False using ih q by blast
    qed
  qed
  then show ?thesis by (cases "trim_conversation ''3901'' convo") auto
qed

text \<open>
  A query that reads as a number decides the loop test by its digits: the query \<open>42\<close>
  empties a history of fifteen characters.
\<close>

lemma trim_conversation_42:
  "trim_conversation ''42'' [''Hi'', ''An answer'', ''42''] = Some [''42'']"
proof -
  have d: "digits_value ''4215'' = 4215" "digits_value ''4212'' = 4212" "digits_value ''422'' = 422"
    by (simp_all add: digits_value_def digit_val_def)
  have n: "str_to_number ''4215'' = Fin 4215" "str_to_number ''4212'' = Fin 4212"
    "str_to_number ''422'' = Fin 422"
    using str_to_number_digits [of "''4215''"] str_to_number_digits [of "''4212''"]
      str_to_number_digits [of "''422''"] d
    by (simp_all add: is_digit_def)
  have s: "show_nat 15 = ''15''" "show_nat 12 = ''12''" "show_nat 2 = ''2''"
    by (simp_all add: show_nat.simps digit_char_def)
  have l: "length (join [newline] [''Hi'', ''An answer'', ''42'']) = 15"
    "length (join [newline] [''An answer'', ''42'']) = 12"
    "length (join [newline] [''42'']) = 2"
    by simp_all
  have c: "gt_3900 (str_to_number (''42'' @ show_nat (length (join [newline] [''Hi'', ''An answer'', ''42'']))))"
    "gt_3900 (str_to_number (''42'' @ show_nat (length (join [newline] [''An answer'', ''42'']))))"
    "\<not> gt_3900 (str_to_number (''42'' @ show_nat (length (join [newline] [''42'']))))"
    unfolding l s by (simp_all add: n gt_3900_def)
  have "trim_conversation ''42'' [''42''] = Some [''42'']"
    by (subst trim_conversation.simps) (simp only: c if_False)
  then have "trim_conversation ''42'' (shift [''An answer'', ''42'']) = Some [''42'']"
    by (simp add: shift_def)
  then have "trim_conversation ''42'' [''An answer'', ''42''] = Some [''42'']"
    by (subst trim_conversation.simps) (simp only: c if_True)
  then have "trim_conversation ''42'' (shift [''Hi'', ''An answer'', ''42'']) = Some [''42'']"
    by (simp add: shift_def)
  then show ?thesis
    by (subst trim_conversation.simps) (simp only: c if_True)
qed

text \<open>
  A query that reads as a number above 3900 with any digits after it, such as \<open>3901\<close>,
  makes the loop test true for every history, the empty one too: the handler never returns.
\<close>

lemma onSubmit_numeric_query_never_returns:
  "onSubmit canAccessAI prefs prompt files subbedPrompt s
     \<lparr>queryField = ''3901'', responseField = r, useFilesCheckbox = uf,
      useConversationCheckbox = uc\<rparr> = None"
  by (simp add: onSubmit_def trim_conversation_3901)


text \<open>
  Claim C1. After the trimming step of a submit with query \<open>q\<close>, the length of \<open>q\<close>
  plus the length of the joined history is at most 3900. The code departs from the claim:
  the loop test appends the length of the joined history to the query as text and
  compares that text, read as a number, with 3900. With the query \<open>Why?\<close> the text is no
  number and the comparison is false, so a history of 4020 characters is kept whole: 4
  and 4020 are 4024. (With a query that reads as a number the loop drops turns of a
  short history, \<open>trim_conversation_42\<close>, or never ends,
  \<open>onSubmit_numeric_query_never_returns\<close>.)
\<close>

theorem onSubmit_keeps_long_history:
  "map_option (conversation \<circ> fst)
     (onSubmit False scenario_prefs ''Summarize this'' no_files ''Why?''
        (initial_state ''Summarize this'' long_answer None)
        \<lparr>queryField = ''Why?'', responseField = long_answer, useFilesCheckbox = False,
         useConversationCheckbox = True\<rparr>)
     = Some [''Summarize this'', long_answer, ''Why?''] \<and>
   length ''Why?'' + length (join [newline] [''Summarize this'', long_answer, ''Why?'']) = 4024 \<and>
   \<not> (4024 :: nat) \<le> 3900"
proof -
  have "conversation (initial_state ''Summarize this'' long_answer None) = [''Summarize this'']"
    by (simp add: initial_state_def)
  then have "map_option (conversation \<circ> fst)
     (onSubmit False scenario_prefs ''Summarize this'' no_files ''Why?''
        (initial_state ''Summarize this'' long_answer None)
        \<lparr>queryField = ''Why?'', responseField = long_answer, useFilesCheckbox = False,
         useConversationCheckbox = True\<rparr>)
     = Some [''Summarize this'', long_answer, ''Why?'']"
    by (simp add: onSubmit_def trim_conversation_long)
  then show ?thesis using length_long_conversation by simp
qed

text \<open>
  Claim C5. Regenerate re-invokes the endpoint: with a previous response it replays the
  last sent query and leaves the history as it is, without one it calls the caller's
  \<open>revalidate\<close>. The code departs from the claim on an HTTP endpoint: there the
  \<open>revalidate\<close> of the hook is \<open>() => null\<close>, so with a previous response nothing is
  sent. On the built-in assistant the same action asks again with the sent query.
\<close>

theorem onRegenerate_http_sends_nothing:
  "previousResponse (initial_state ''Summarize this'' ''An answer'' (Some ''Why?'')) = ''An answer'' \<and>
   onRegenerate False scenario_prefs ''Summarize this''
       (initial_state ''Summarize this'' ''An answer'' (Some ''Why?''))
     = (initial_state ''Summarize this'' ''An answer'' (Some ''Why?''), []) \<and>
   onRegenerate True (scenario_prefs\<lparr>modelEndpoint := ''raycast ai''\<rparr>) ''Summarize this''
       (initial_state ''Summarize this'' ''An answer'' (Some ''Why?''))
     = (initial_state ''Summarize this'' ''An answer'' (Some ''Why?''),
        [Request (AskAI ''Why?'')])"
  by code_simp

text \<open>
  What the Cancel action does to the session: with a previous response it clears the flag
  that tells the hook to execute and leaves the rest as it is; without one it calls the
  caller's cancel and changes nothing.
\<close>

lemma onCancel_frame:
  "(previousResponse s \<noteq> [] \<longrightarrow>
      onCancel s = (s\<lparr>enableModel := False\<rparr>, []) \<and>
      previousResponse (fst (onCancel s)) = previousResponse s \<and>
      currentResponse (fst (onCancel s)) = currentResponse s \<and>
      conversation (fst (onCancel s)) = conversation s \<and>
      sentQuery (fst (onCancel s)) = sentQuery s \<and>
      CallerCancel \<notin> set (snd (onCancel s))) \<and>
   (previousResponse s = [] \<longrightarrow> onCancel s = (s, [CallerCancel]))"
  by (simp add: onCancel_def)

text \<open>
  In the fetch branch the render after Cancel leaves the state of the hook as it is, so a
  hook that is loading stays loading; and every response holds \<open>execute = true\<close>, so the
  test that would end it never holds and its chunks go on setting \<open>data\<close>.
\<close>

lemma cancel_leaves_hook_loading:
  assumes "previousResponse s \<noteq> []" and "isLoading h"
  shows "fetch_effect (enableModel (fst (onCancel s))) h = h \<and>
         \<not> idle parentLoading (fetch_effect (enableModel (fst (onCancel s))) h)"
  using assms by (simp add: onCancel_def fetch_effect_def idle_def)

lemma open_stream_never_stops:
  "on_chunk ((open_stream prefs basePrompt prompt input)\<lparr>so_far := t\<rparr>) (x # xs) h
     = ((open_stream prefs basePrompt prompt input)\<lparr>so_far := foldl accumulate t (x # xs)\<rparr>,
        h\<lparr>dataTag := Some (async_body prefs basePrompt prompt input),
          data := foldl accumulate t (x # xs)\<rparr>)"
  by (simp add: on_chunk_def open_stream_def Let_def)

text \<open>
  Claim C7. With a previous response, cancel abandons only the invocation in flight and
  returns the session to idle, the previous response and the history staying as they are;
  without one it calls the caller's cancel. The frame part holds (\<open>onCancel_frame\<close>).
  The code departs from the claim on an HTTP endpoint: Cancel only clears the flag that
  tells the hook to execute, the request is not aborted, and the handlers of the response
  hold the \<open>execute\<close> of the render that sent it. With the query \<open>Why?\<close> in flight and
  the first chunk \<open>Hel\<close> shown, Cancel leaves the hook loading, so the form still offers
  Cancel and the session is not idle, no new request is sent, and the next chunk
  \<open>Hello\<close> still becomes the displayed response.
\<close>

theorem onCancel_leaves_request_running:
  "previousResponse asked_chat = ''An answer'' \<and>
   currentResponse asked_chat = ''Hel'' \<and>
   isLoading asked_hook \<and>
   onCancel asked_chat = (asked_chat\<lparr>enableModel := False\<rparr>, []) \<and>
   requests_of (useModel False streaming_prefs ''Summarize this''
      (sentQuery (fst (onCancel asked_chat))) [] (enableModel (fst (onCancel asked_chat)))) = [] \<and>
   fetch_effect (enableModel (fst (onCancel asked_chat))) asked_hook = asked_hook \<and>
   \<not> idle False (fetch_effect (enableModel (fst (onCancel asked_chat))) asked_hook) \<and>
   data (snd (on_chunk asked_stream [''Hello''] asked_hook)) = ''Hello'' \<and>
   currentResponse (onData (data (snd (on_chunk asked_stream [''Hello''] asked_hook)))
      (fst (onCancel asked_chat))) = ''Hello''"
  by code_simp

text \<open>
  Claim C8. A submit with an empty query is rejected: the query field gets the error
  \<open>Query cannot be empty\<close>, every other part of the session (previous response,
  displayed response, history, sent query, the flag that tells the hook to execute) stays
  as it is, nothing is called, and the hook, whose arguments are unchanged, starts no
  other requests than before.
\<close>

theorem onSubmit_empty_query_rejected:
  assumes "queryField v = []"
  shows "onSubmit canAccessAI prefs prompt files subbedPrompt s v
           = Some (s\<lparr>queryError := Some ''Query cannot be empty''\<rparr>, []) \<and>
         (\<forall>s' effs. onSubmit canAccessAI prefs prompt files subbedPrompt s v = Some (s', effs) \<longrightarrow>
            queryError s' = Some ''Query cannot be empty'' \<and>
            previousResponse s' = previousResponse s \<and>
            currentResponse s' = currentResponse s \<and>
            conversation s' = conversation s \<and>
            sentQuery s' = sentQuery s \<and>
            enableModel s' = enableModel s \<and>
            effs = [] \<and>
            useModel canAccessAI prefs prompt (sentQuery s') [] (enableModel s')
              = useModel canAccessAI prefs prompt (sentQuery s) [] (enableModel s))"
  using assms by (auto simp: onSubmit_def)

theorem onSubmit_empty_query_rejected_witness:
  "queryField \<lparr>queryField = [], responseField = ''An answer'', useFilesCheckbox = False,
               useConversationCheckbox = True\<rparr> = [] \<and>
   onSubmit False scenario_prefs ''Summarize this'' no_files []
       (initial_state ''Summarize this'' ''An answer'' None)
       \<lparr>queryField = [], responseField = ''An answer'', useFilesCheckbox = False,
        useConversationCheckbox = True\<rparr>
     = Some ((initial_state ''Summarize this'' ''An answer'' None)
               \<lparr>queryError := Some ''Query cannot be empty''\<rparr>, [])"
proof -
  let ?v = "\<lparr>queryField = [], responseField = ''An answer'', useFilesCheckbox = False,
             useConversationCheckbox = True\<rparr>"
  have h: "queryField ?v = []" by simp
  show ?thesis
    using h onSubmit_empty_query_rejected [OF h, of False scenario_prefs "''Summarize this''"
        no_files "[]" "initial_state ''Summarize this'' ''An answer'' None"]
    by blast
qed

end
